theory Spec2Isabelle
  imports Complex_Main
begin

section \<open>Data model of \<^verbatim>\<open>src/components/MarioGame.tsx\<close>\<close>

text \<open>
  The TypeScript \<^verbatim>\<open>number\<close> is modelled by \<^typ>\<open>real\<close>: arithmetic is exact, the
  rounding of IEEE doubles is not part of the model. The score and the speed tier only
  ever hold integers and are of type \<^typ>\<open>int\<close>.

  The five interfaces of the source share the rectangle fields \<^verbatim>\<open>x, y, width, height\<close>;
  they are records extending \<open>rect\<close>, which is also \<^verbatim>\<open>interface Platform\<close>.
\<close>

record rect =
  x :: real
  y :: real
  width :: real
  height :: real

type_synonym platform = rect

text \<open>\<^verbatim>\<open>"speed" | "jump" | "shield"\<close> and \<^verbatim>\<open>"coin" | "speed" | "jump" | "shield"\<close>.\<close>

datatype modifier = Speed | Jump | Shield

datatype reward = Coin | Modifier modifier

record brick = rect +
  broken :: bool
  hasPowerUp :: bool
  powerUpType :: "reward option"

record coin = rect +
  collected :: bool

record powerUp = rect +
  type :: modifier
  collected :: bool
  velocityY :: real

text \<open>\<^verbatim>\<open>interface GameObject\<close>: the player and the enemies.\<close>

record gameObject = rect +
  velocityX :: real
  velocityY :: real
  onGround :: bool

datatype gameState = Playing | Paused | GameOver | Won

record powerUpActive =
  speed :: bool
  jump :: bool
  shield :: bool

datatype error = TypeError

text \<open>
  The state of the component. The first group are the \<^verbatim>\<open>useRef\<close> cells, the second
  the \<^verbatim>\<open>useState\<close> cells as React holds them.

  The game loop is installed by an effect whose dependency list is \<^verbatim>\<open>[gameState]\<close>, so
  the \<^verbatim>\<open>updateGame\<close> and \<^verbatim>\<open>spawnObstacles\<close> it runs are the closures of the render in
  which \<^verbatim>\<open>gameState\<close> last changed: where they read the variables \<^verbatim>\<open>cameraX\<close> and
  \<^verbatim>\<open>powerUpActive\<close> they see the values of that render (\<open>closureCameraX\<close>,
  \<open>closurePowerUpActive\<close>), whereas the functional updaters
  \<^verbatim>\<open>setX(prev => ...)\<close> act on the current cells.

  \<open>timeouts\<close> are the pending \<^verbatim>\<open>setTimeout\<close> callbacks of \<^verbatim>\<open>activatePowerUp\<close>;
  \<open>randoms\<close> is the sequence of values \<^verbatim>\<open>Math.random()\<close> returns and \<open>randomCalls\<close>
  the number of calls made so far.
\<close>

record game =
  player :: gameObject
  platforms :: "platform list"
  bricks :: "brick list"
  enemies :: "gameObject list"
  coins :: "coin list"
  powerUps :: "powerUp list"
  keys :: "string set"
  gameState :: gameState
  score :: int
  darkMode :: bool
  cameraX :: real
  gameSpeed :: int
  powerUpActive :: powerUpActive
  closureCameraX :: real
  closurePowerUpActive :: powerUpActive
  timeouts :: "modifier list"
  randoms :: "nat \<Rightarrow> real"
  randomCalls :: nat

section \<open>Game constants\<close>

definition GRAVITY :: real where
  "GRAVITY = 0.8"

definition JUMP_FORCE :: real where
  "JUMP_FORCE = - 15"

definition MOVE_SPEED :: real where
  "MOVE_SPEED = 5"

definition CANVAS_WIDTH :: real where
  "CANVAS_WIDTH = 800"

definition FINISH_LINE :: real where
  "FINISH_LINE = 10000"

section \<open>Helpers\<close>

text \<open>
  The axis-aligned overlap test the source writes out at every collision:
  \<^verbatim>\<open>a.x < b.x + b.width && a.x + a.width > b.x && a.y < b.y + b.height && a.y + a.height > b.y\<close>.
\<close>

definition overlaps :: "'a rect_scheme \<Rightarrow> 'b rect_scheme \<Rightarrow> bool" where
  "overlaps a b \<longleftrightarrow>
     x a < x b + width b \<and> x a + width a > x b \<and> y a < y b + height b \<and> y a + height a > y b"

text \<open>
  A \<^verbatim>\<open>for (const o of os)\<close> loop whose body updates the object \<open>o\<close> and some shared
  state: the body maps the object and the state to the updated object and state.
\<close>

fun forEach :: "('a \<Rightarrow> 's \<Rightarrow> 'a \<times> 's) \<Rightarrow> 'a list \<Rightarrow> 's \<Rightarrow> 'a list \<times> 's" where
  "forEach f [] s = ([], s)"
| "forEach f (a # as) s =
     (let (a', s') = f a s; (as', s'') = forEach f as s' in (a' # as', s''))"

definition setFlag :: "modifier \<Rightarrow> bool \<Rightarrow> powerUpActive \<Rightarrow> powerUpActive" where
  "setFlag m v pa =
     (case m of Speed \<Rightarrow> pa\<lparr>speed := v\<rparr> | Jump \<Rightarrow> pa\<lparr>jump := v\<rparr> | Shield \<Rightarrow> pa\<lparr>shield := v\<rparr>)"

section \<open>The procedural generator: \<^verbatim>\<open>spawnObstacles\<close>\<close>

text \<open>
  The brick loop \<^verbatim>\<open>for (let i = 0; i < brickCount; i++)\<close>: \<open>i\<close> is the loop index,
  the next argument the number of iterations left, \<open>c\<close> the number of random values
  drawn so far. Each brick draws two values, and a third when it carries a reward.
\<close>

fun spawnBricks :: "(nat \<Rightarrow> real) \<Rightarrow> real \<Rightarrow> real \<Rightarrow> nat \<Rightarrow> nat \<Rightarrow> nat \<Rightarrow> brick list \<times> nat" where
  "spawnBricks rnd spawnX platformY i 0 c = ([], c)"
| "spawnBricks rnd spawnX platformY i (Suc k) c =
     (let brickX = spawnX + real i * 30 + rnd c * 20;
          brickY = platformY - 30 - real i * 30;
          has = (rnd (c + 1) > 0.7);
          powerUpChance = rnd (c + 2);
          ty = (if has then
                  Some (if powerUpChance < 0.4 then Coin
                        else if powerUpChance < 0.6 then Modifier Speed
                        else if powerUpChance < 0.8 then Modifier Jump
                        else Modifier Shield)
                else None);
          c' = (if has then c + 3 else c + 2);
          b = \<lparr>x = brickX, y = brickY, width = 25, height = 25,
               broken = False, hasPowerUp = has, powerUpType = ty\<rparr>;
          (bs, c'') = spawnBricks rnd spawnX platformY (i + 1) k c'
      in (b # bs, c''))"

text \<open>
  The first part of \<^verbatim>\<open>spawnObstacles\<close>, up to the comment
  \<^verbatim>\<open>// Remove old platforms and objects that are far behind\<close>: one platform, one to three
  bricks, perhaps an enemy and perhaps a coin are pushed onto the arrays. \<open>lastPlatform\<close>
  is the last element of the platform array.
\<close>

definition spawnGroup :: "platform \<Rightarrow> game \<Rightarrow> game" where
  "spawnGroup lastPlatform g =
     (let rnd = randoms g;
          n = randomCalls g;
          spawnX = x lastPlatform + width lastPlatform + rnd n * 200 + 100;
          platformHeight = rnd (n + 1) * 60 + 20;
          platformY = 400 - platformHeight;
          newPlatform = \<lparr>x = spawnX, y = platformY, width = rnd (n + 2) * 100 + 80, height = 20\<rparr>;
          brickCount = nat \<lfloor>rnd (n + 3) * 3\<rfloor> + 1;
          (newBricks, c1) = spawnBricks rnd spawnX platformY 0 brickCount (n + 4);
          newEnemies =
            (if rnd c1 > 0.3
             then [\<lparr>x = spawnX + 20, y = platformY - 25, width = 25, height = 25,
                    velocityX = (if rnd (c1 + 1) > 0.5 then 1.5 else - 1.5),
                    velocityY = 0, onGround = True\<rparr>]
             else []);
          c2 = (if rnd c1 > 0.3 then c1 + 2 else c1 + 1);
          newCoins =
            (if rnd c2 > 0.2
             then [\<lparr>x = spawnX + rnd (c2 + 1) * 60 + 10, y = platformY - 40, width = 20, height = 20,
                    coin.collected = False\<rparr>]
             else []);
          c3 = (if rnd c2 > 0.2 then c2 + 2 else c2 + 1)
      in g\<lparr>platforms := platforms g @ [newPlatform],
            bricks := bricks g @ newBricks,
            enemies := enemies g @ newEnemies,
            coins := coins g @ newCoins,
            randomCalls := c3\<rparr>)"

text \<open>
  The second part: every array is replaced by a filtered copy. \<^verbatim>\<open>cameraX\<close> is the
  variable of the closure.
\<close>

definition cleanup :: "game \<Rightarrow> game" where
  "cleanup g =
     (let cleanupDistance = closureCameraX g - 200
      in g\<lparr>platforms := filter (\<lambda>p. x p + width p > cleanupDistance) (platforms g),
            bricks := filter (\<lambda>b. x b > cleanupDistance) (bricks g),
            enemies := filter (\<lambda>e. x e > cleanupDistance) (enemies g),
            coins := filter (\<lambda>c. x c > cleanupDistance) (coins g),
            powerUps := filter (\<lambda>p. x p > cleanupDistance) (powerUps g)\<rparr>)"

text \<open>
  \<^verbatim>\<open>platformsRef.current[platformsRef.current.length - 1]\<close> is \<^verbatim>\<open>undefined\<close> on
  an empty array, and reading \<^verbatim>\<open>lastPlatform.x\<close> then throws a TypeError.
\<close>

definition spawnObstacles :: "game \<Rightarrow> error + game" where
  "spawnObstacles g =
     (case platforms g of
        [] \<Rightarrow> Inl TypeError
      | _ \<Rightarrow> Inr (cleanup (spawnGroup (last (platforms g)) g)))"

section \<open>The simulation step: \<^verbatim>\<open>updateGame\<close>\<close>

subsection \<open>Input and physics\<close>

definition handleInput :: "powerUpActive \<Rightarrow> string set \<Rightarrow> gameObject \<Rightarrow> gameObject" where
  "handleInput pa ks p =
     (let currentMoveSpeed = (if speed pa then MOVE_SPEED * 1.5 else MOVE_SPEED);
          currentJumpForce = (if jump pa then JUMP_FORCE * 1.3 else JUMP_FORCE);
          p1 = (if ''ArrowLeft'' \<in> ks \<or> ''a'' \<in> ks then p\<lparr>velocityX := - currentMoveSpeed\<rparr>
                else if ''ArrowRight'' \<in> ks \<or> ''d'' \<in> ks then p\<lparr>velocityX := currentMoveSpeed\<rparr>
                else p\<lparr>velocityX := velocityX p * 0.8\<rparr>)
      in if (''ArrowUp'' \<in> ks \<or> ''w'' \<in> ks \<or> '' '' \<in> ks) \<and> onGround p1
         then p1\<lparr>velocityY := currentJumpForce, onGround := False\<rparr>
         else p1)"

definition updatePhysics :: "gameObject \<Rightarrow> gameObject" where
  "updatePhysics p =
     (let p1 = p\<lparr>velocityY := velocityY p + GRAVITY\<rparr>;
          p2 = p1\<lparr>x := x p1 + velocityX p1\<rparr>
      in p2\<lparr>y := y p2 + velocityY p2\<rparr>)"

text \<open>The player after \<^verbatim>\<open>// Update player physics\<close>.\<close>

definition movedPlayer :: "game \<Rightarrow> gameObject" where
  "movedPlayer g = updatePhysics (handleInput (closurePowerUpActive g) (keys g) (player g))"

subsection \<open>Spawn check\<close>

text \<open>
  \<^verbatim>\<open>if (lastPlatform && player.x > lastPlatform.x - 200) spawnObstacles()\<close>, where
  \<^verbatim>\<open>lastPlatform\<close> is \<^verbatim>\<open>undefined\<close> (falsy) when the array is empty.
\<close>

definition spawnDue :: "game \<Rightarrow> bool" where
  "spawnDue g \<longleftrightarrow> platforms g \<noteq> [] \<and> x (movedPlayer g) > x (last (platforms g)) - 200"

text \<open>
  \<^verbatim>\<open>updateGame\<close> binds the locals \<^verbatim>\<open>platforms, enemies, bricks, powerUps\<close> to the arrays
  of the refs before anything else. \<^verbatim>\<open>spawnObstacles\<close> pushes onto these very arrays and
  then stores filtered copies in the refs, so for the rest of a tick in which it ran the
  locals are the arrays after the pushes and before the filter. \<open>localArrays\<close> holds
  them; the random values drawn are accounted for in \<open>randomCalls\<close>.
\<close>

definition localArrays :: "game \<Rightarrow> game" where
  "localArrays g = (if spawnDue g then spawnGroup (last (platforms g)) g else g)"

subsection \<open>Camera\<close>

definition cameraSpeed :: "gameObject \<Rightarrow> real" where
  "cameraSpeed p = (if velocityX p > 0 then 0.4 else if velocityX p < 0 then 0.2 else 0.3)"

definition clampedCameraX :: "gameObject \<Rightarrow> real" where
  "clampedCameraX p = max 0 (min (x p - CANVAS_WIDTH / 2) (FINISH_LINE - CANVAS_WIDTH))"

definition followCamera :: "gameObject \<Rightarrow> real \<Rightarrow> real" where
  "followCamera p prev = prev + (clampedCameraX p - prev) * cameraSpeed p"

subsection \<open>Platform collisions\<close>

definition platformCollision :: "platform \<Rightarrow> gameObject \<Rightarrow> gameObject" where
  "platformCollision pf p =
     (if overlaps p pf then
        if velocityY p > 0 \<and> y p < y pf then
          p\<lparr>y := y pf - height p, velocityY := 0, onGround := True\<rparr>
        else if velocityY p < 0 \<and> y p > y pf then
          p\<lparr>y := y pf + height pf, velocityY := 0\<rparr>
        else if velocityX p > 0 \<and> x p < x pf then
          p\<lparr>x := x pf - width p, velocityX := 0\<rparr>
        else if velocityX p < 0 \<and> x p > x pf then
          p\<lparr>x := x pf + width pf, velocityX := 0\<rparr>
        else p
      else p)"

definition checkPlatforms :: "platform list \<Rightarrow> gameObject \<Rightarrow> gameObject" where
  "checkPlatforms pfs p = fold platformCollision pfs (p\<lparr>onGround := False\<rparr>)"

subsection \<open>Brick collisions\<close>

text \<open>
  The state of the brick loop: the player, the score, and the power-ups pushed onto
  \<^verbatim>\<open>powerUpsRef.current\<close> during the loop, in order.
\<close>

definition brickCollision ::
  "brick \<Rightarrow> gameObject \<times> int \<times> powerUp list \<Rightarrow> brick \<times> (gameObject \<times> int \<times> powerUp list)" where
  "brickCollision b st =
     (case st of (p, sc, pushed) \<Rightarrow>
        if \<not> broken b \<and> overlaps p b then
          if velocityY p < 0 \<and> y p > y b then
            (b\<lparr>broken := True\<rparr>,
             (p\<lparr>velocityY := 2\<rparr>,
              (if hasPowerUp b \<and> powerUpType b = Some Coin then sc + 100 else sc),
              (case powerUpType b of
                 Some (Modifier m) \<Rightarrow>
                   if hasPowerUp b
                   then pushed @ [\<lparr>x = x b, y = y b + height b, width = 20, height = 20,
                                  type = m, powerUp.collected = False, powerUp.velocityY = 0\<rparr>]
                   else pushed
               | _ \<Rightarrow> pushed)))
          else (b, st)
        else (b, st))"

definition checkBricks ::
  "brick list \<Rightarrow> gameObject \<times> int \<times> powerUp list \<Rightarrow> brick list \<times> (gameObject \<times> int \<times> powerUp list)" where
  "checkBricks bs st = forEach brickCollision bs st"

subsection \<open>Power-ups\<close>

definition powerUpLanding :: "platform \<Rightarrow> powerUp \<Rightarrow> powerUp" where
  "powerUpLanding pf pu =
     (if overlaps pu pf \<and> powerUp.velocityY pu > 0 \<and> y pu < y pf
      then pu\<lparr>y := y pf - height pu, powerUp.velocityY := 0\<rparr>
      else pu)"

text \<open>
  The state of the power-up loop: the score, the \<^verbatim>\<open>powerUpActive\<close> cell and the pending
  timeouts (\<^verbatim>\<open>activatePowerUp\<close> sets the flag and schedules its reset).
\<close>

definition updatePowerUp ::
  "platform list \<Rightarrow> gameObject \<Rightarrow> powerUp \<Rightarrow> int \<times> powerUpActive \<times> modifier list
     \<Rightarrow> powerUp \<times> (int \<times> powerUpActive \<times> modifier list)" where
  "updatePowerUp pfs p pu st =
     (if \<not> powerUp.collected pu then
        let pu1 = pu\<lparr>powerUp.velocityY := powerUp.velocityY pu + GRAVITY * 0.5\<rparr>;
            pu2 = pu1\<lparr>y := y pu1 + powerUp.velocityY pu1\<rparr>;
            pu3 = fold powerUpLanding pfs pu2
        in if overlaps p pu3
           then (pu3\<lparr>powerUp.collected := True\<rparr>,
                 (case st of (sc, pa, ts) \<Rightarrow> (sc + 50, setFlag (type pu3) True pa, ts @ [type pu3])))
           else (pu3, st)
      else (pu, st))"

subsection \<open>Enemies\<close>

text \<open>
  The first half of the enemy loop's body: the move, the search for the first platform
  the enemy overlaps, and the reversal. \<^verbatim>\<open>platformLeft\<close> and \<^verbatim>\<open>platformRight\<close> keep
  their initial value 0 when no platform is found.
\<close>

definition patrol :: "platform list \<Rightarrow> gameObject \<Rightarrow> gameObject" where
  "patrol pfs e =
     (let e1 = e\<lparr>x := x e + velocityX e\<rparr>;
          found = find (\<lambda>pf. overlaps e1 pf) pfs;
          onPlatform = (found \<noteq> None);
          platformLeft = (case found of None \<Rightarrow> 0 | Some pf \<Rightarrow> x pf);
          platformRight = (case found of None \<Rightarrow> 0 | Some pf \<Rightarrow> x pf + width pf)
      in if \<not> onPlatform \<or> x e1 \<le> platformLeft \<or> x e1 + width e1 \<ge> platformRight then
           let e2 = e1\<lparr>velocityX := velocityX e1 * (- 1)\<rparr>
           in if x e2 \<le> platformLeft then e2\<lparr>x := platformLeft\<rparr>
              else if x e2 + width e2 \<ge> platformRight then e2\<lparr>x := platformRight - width e2\<rparr>
              else e2
         else e1)"

text \<open>
  The whole body. The state of the loop is the player, the score and the run state;
  \<open>sh\<close> is \<^verbatim>\<open>powerUpActive.shield\<close> as the closure sees it. The result says whether
  the enemy was spliced out of the array (\<^verbatim>\<open>enemies.indexOf(enemy)\<close> finds it, the
  objects of the array being distinct).
\<close>

definition updateEnemy ::
  "platform list \<Rightarrow> bool \<Rightarrow> gameObject \<Rightarrow> gameObject \<times> int \<times> gameState
     \<Rightarrow> (gameObject \<times> bool) \<times> (gameObject \<times> int \<times> gameState)" where
  "updateEnemy pfs sh e st =
     (case st of (p, sc, gs) \<Rightarrow>
        let e' = patrol pfs e
        in if overlaps p e' then
             if velocityY p > 0 \<and> y p < y e'
             then ((e', True), (p\<lparr>velocityY := JUMP_FORCE / 2\<rparr>, sc + 100, gs))
             else ((e', False), (p, sc, if \<not> sh then GameOver else gs))
           else ((e', False), st))"

text \<open>
  \<^verbatim>\<open>for (const enemy of enemies)\<close> walks the array by index. When the body splices
  the current enemy out, the following one moves into its place and the iterator steps
  over it: that enemy is not visited in this tick. The result lists every element of
  the array as it was before the loop, with its final value and whether it was spliced.
\<close>

fun enemyLoop ::
  "platform list \<Rightarrow> bool \<Rightarrow> gameObject list \<Rightarrow> gameObject \<times> int \<times> gameState
     \<Rightarrow> (gameObject \<times> bool) list \<times> (gameObject \<times> int \<times> gameState)" where
  "enemyLoop pfs sh [] st = ([], st)"
| "enemyLoop pfs sh [e] st = (let (r, st') = updateEnemy pfs sh e st in ([r], st'))"
| "enemyLoop pfs sh (e # skipped # es) st =
     (let (r, st') = updateEnemy pfs sh e st
      in if snd r
         then (let (rs, st'') = enemyLoop pfs sh es st' in (r # (skipped, False) # rs, st''))
         else (let (rs, st'') = enemyLoop pfs sh (skipped # es) st' in (r # rs, st'')))"

subsection \<open>Coins\<close>

definition collectCoin :: "gameObject \<Rightarrow> coin \<Rightarrow> int \<Rightarrow> coin \<times> int" where
  "collectCoin p c sc =
     (if \<not> coin.collected c \<and> overlaps p c then (c\<lparr>coin.collected := True\<rparr>, sc + 50) else (c, sc))"

subsection \<open>World bounds\<close>

definition keepInBounds :: "gameObject \<Rightarrow> gameObject" where
  "keepInBounds p =
     (let p1 = (if x p < 0 then p\<lparr>x := 0\<rparr> else p)
      in if y p1 > 400 then p1\<lparr>y := 400, velocityY := 0, onGround := True\<rparr> else p1)"

subsection \<open>The tick\<close>

text \<open>
  The body of \<^verbatim>\<open>updateGame\<close>, in the order of the source. The sweeps run over the
  locals (\<open>localArrays\<close>); the objects of these arrays are shared with the arrays in the
  refs, so what a sweep writes into an object shows in the ref as well. In a tick in
  which \<^verbatim>\<open>spawnObstacles\<close> ran, the ref arrays are the filtered copies made then:
  \<^item> an object is in the ref iff it passed the filter, which looked at its \<open>x\<close> at
    that moment (only the enemies' \<open>x\<close> changes afterwards);
  \<^item> a power-up pushed by a broken brick goes to the ref, not to the local, and is
    not visited by the power-up loop of this tick;
  \<^item> an enemy spliced out of the local stays in the ref.
  In a tick without a spawn the locals are the arrays of the refs.
\<close>

definition updateGame :: "game \<Rightarrow> game" where
  "updateGame g =
     (let player1 = movedPlayer g;
          spawn = spawnDue g;
          loc = localArrays g;
          cleanupDistance = closureCameraX g - 200;
          camera = followCamera player1 (cameraX g);
          player2 = checkPlatforms (platforms loc) player1;
          (bricks', player3, score3, pushed) = checkBricks (bricks loc) (player2, score g, []);
          visited = (if spawn then powerUps loc else powerUps loc @ pushed);
          (powerUps', score4, active4, timeouts4) =
             forEach (updatePowerUp (platforms loc) player3) visited
               (score3, powerUpActive g, timeouts g);
          (enemies', player5, score5, state5) =
             enemyLoop (platforms loc) (shield (closurePowerUpActive g)) (enemies loc)
               (player3, score4, gameState g);
          (coins', score6) =
             forEach (\<lambda>c sc. collectCoin player5 c sc)
               (if spawn then filter (\<lambda>c. x c > cleanupDistance) (coins loc) else coins loc) score5;
          state7 = (if x player5 \<ge> FINISH_LINE then Won else state5);
          player8 = keepInBounds player5
      in g\<lparr>player := player8,
            platforms :=
              (if spawn then filter (\<lambda>p. x p + width p > cleanupDistance) (platforms loc)
               else platforms loc),
            bricks := (if spawn then filter (\<lambda>b. x b > cleanupDistance) bricks' else bricks'),
            enemies :=
              (if spawn
               then map (\<lambda>(r, e0). fst r) (filter (\<lambda>(r, e0). x e0 > cleanupDistance) (zip enemies' (enemies loc)))
               else map fst (filter (\<lambda>r. \<not> snd r) enemies')),
            coins := coins',
            powerUps :=
              (if spawn then filter (\<lambda>p. x p > cleanupDistance) powerUps' @ pushed else powerUps'),
            gameState := state7,
            score := score6,
            cameraX := camera,
            gameSpeed := 2 + \<lfloor>x player8 / 1000\<rfloor>,
            powerUpActive := active4,
            timeouts := timeouts4,
            randomCalls := randomCalls loc\<rparr>)"

section \<open>The component: events and renders\<close>

text \<open>
  After an event React renders again; the effect that installs the game loop runs again
  only when \<^verbatim>\<open>gameState\<close> differs from the previous render, and the closures of the new
  loop then see the current \<^verbatim>\<open>cameraX\<close> and \<^verbatim>\<open>powerUpActive\<close>.
\<close>

definition rerender :: "game \<Rightarrow> game \<Rightarrow> game" where
  "rerender old new =
     (if gameState new \<noteq> gameState old
      then new\<lparr>closureCameraX := cameraX new, closurePowerUpActive := powerUpActive new\<rparr>
      else new)"

text \<open>One animation frame: \<^verbatim>\<open>gameLoop\<close>.\<close>

definition gameLoop :: "game \<Rightarrow> game" where
  "gameLoop g = (if gameState g = Playing then rerender g (updateGame g) else g)"

definition handleKeyDown :: "string \<Rightarrow> game \<Rightarrow> game" where
  "handleKeyDown k g =
     (if k = ''p'' \<or> k = ''P''
      then g\<lparr>gameState := (if gameState g = Playing then Paused else Playing)\<rparr>
      else g\<lparr>keys := insert k (keys g)\<rparr>)"

definition handleKeyUp :: "string \<Rightarrow> game \<Rightarrow> game" where
  "handleKeyUp k g = g\<lparr>keys := keys g - {k}\<rparr>"

text \<open>A pending timeout of \<^verbatim>\<open>activatePowerUp\<close> fires.\<close>

definition timeoutFires :: "modifier \<Rightarrow> game \<Rightarrow> game" where
  "timeoutFires m g =
     g\<lparr>powerUpActive := setFlag m False (powerUpActive g), timeouts := remove1 m (timeouts g)\<rparr>"

definition resetGame :: "game \<Rightarrow> game" where
  "resetGame g =
     g\<lparr>player := \<lparr>x = 100, y = 300, width = 30, height = 30,
                   velocityX = 0, velocityY = 0, onGround = False\<rparr>,
       platforms := [\<lparr>x = 0, y = 400, width = 200, height = 40\<rparr>],
       bricks := [],
       enemies := [],
       coins := [],
       powerUps := [],
       score := 0,
       cameraX := 0,
       gameSpeed := 2,
       powerUpActive := \<lparr>speed = False, jump = False, shield = False\<rparr>,
       gameState := Playing\<rparr>"

definition toggleDarkMode :: "game \<Rightarrow> game" where
  "toggleDarkMode g = g\<lparr>darkMode := \<not> darkMode g\<rparr>"

text \<open>The state after the first render, for a given sequence of random values.\<close>

definition initialGame :: "(nat \<Rightarrow> real) \<Rightarrow> game" where
  "initialGame rnd =
     \<lparr>player = \<lparr>x = 100, y = 300, width = 30, height = 30,
                 velocityX = 0, velocityY = 0, onGround = False\<rparr>,
      platforms = [\<lparr>x = 0, y = 400, width = 200, height = 40\<rparr>],
      bricks = [],
      enemies = [],
      coins = [],
      powerUps = [],
      keys = {},
      gameState = Playing,
      score = 0,
      darkMode = False,
      cameraX = 0,
      gameSpeed = 2,
      powerUpActive = \<lparr>speed = False, jump = False, shield = False\<rparr>,
      closureCameraX = 0,
      closurePowerUpActive = \<lparr>speed = False, jump = False, shield = False\<rparr>,
      timeouts = [],
      randoms = rnd,
      randomCalls = 0\<rparr>"

text \<open>
  The states the component can be in: \<^verbatim>\<open>Math.random()\<close> returns values in \<open>[0, 1)\<close>;
  the Play Again button is shown in the states \<open>GameOver\<close> and \<open>Won\<close>, the Resume button
  in the state \<open>Paused\<close>.
\<close>

inductive reachable :: "game \<Rightarrow> bool" where
  start: "(\<And>i. 0 \<le> rnd i \<and> rnd i < 1) \<Longrightarrow> reachable (initialGame rnd)"
| frame: "reachable g \<Longrightarrow> reachable (gameLoop g)"
| keyDown: "reachable g \<Longrightarrow> reachable (rerender g (handleKeyDown k g))"
| keyUp: "reachable g \<Longrightarrow> reachable (rerender g (handleKeyUp k g))"
| timeout: "reachable g \<Longrightarrow> m \<in> set (timeouts g) \<Longrightarrow> reachable (rerender g (timeoutFires m g))"
| playAgain: "reachable g \<Longrightarrow> gameState g = GameOver \<or> gameState g = Won
    \<Longrightarrow> reachable (rerender g (resetGame g))"
| resume: "reachable g \<Longrightarrow> gameState g = Paused \<Longrightarrow> reachable (rerender g (g\<lparr>gameState := Playing\<rparr>))"
| theme: "reachable g \<Longrightarrow> reachable (rerender g (toggleDarkMode g))"

section \<open>Predicates and example states used in the statements\<close>

text \<open>
  The condition under which the brick loop breaks a brick: the brick is intact, the player
  overlaps it, moves upwards and has its top edge below the brick's.
\<close>

definition headHit :: "gameObject \<Rightarrow> brick \<Rightarrow> bool" where
  "headHit p b \<longleftrightarrow> \<not> broken b \<and> overlaps p b \<and> gameObject.velocityY p < 0 \<and> y p > y b"

text \<open>The number of bricks that are intact in the first list and broken in the second.\<close>

definition newlyBroken :: "brick list \<Rightarrow> brick list \<Rightarrow> nat" where
  "newlyBroken bs bs' = length (filter (\<lambda>(b, b'). \<not> broken b \<and> broken b') (zip bs bs'))"

text \<open>
  The generator puts every new platform at least 100 units to the right of the last one:
  \<open>apart a b\<close> says so of two platforms, \<open>separated\<close> of a whole array.
\<close>

definition apart :: "platform \<Rightarrow> platform \<Rightarrow> bool" where
  "apart a b \<longleftrightarrow> x a + width a + 100 \<le> x b"

definition separated :: "platform list \<Rightarrow> bool" where
  "separated pfs \<longleftrightarrow> sorted_wrt apart pfs \<and> list_all (\<lambda>p. 0 \<le> width p) pfs"

definition wellFormed :: "game \<Rightarrow> bool" where
  "wellFormed g \<longleftrightarrow> separated (platforms g) \<and> width (player g) = 30"

definition unitRange :: "(nat \<Rightarrow> real) \<Rightarrow> bool" where
  "unitRange rnd \<longleftrightarrow> (\<forall>i. 0 \<le> rnd i \<and> rnd i < 1)"

text \<open>A run that has ended in the state \<open>GameOver\<close>.\<close>

definition stoppedExample :: game where
  "stoppedExample = (initialGame (\<lambda>i. 0))\<lparr>gameState := GameOver\<rparr>"

text \<open>
  The player one unit before the finish line, running right, with an enemy in the way
  that it will touch from the side.
\<close>

definition finishExample :: game where
  "finishExample = (initialGame (\<lambda>i. 0))
     \<lparr>player := \<lparr>x = 9999, y = 370, width = 30, height = 30,
                   velocityX = 5, velocityY = 0, onGround = True\<rparr>,
      platforms := [\<lparr>x = 9900, y = 400, width = 200, height = 40\<rparr>],
      enemies := [\<lparr>x = 10010, y = 380, width = 25, height = 25,
                    velocityX = - 1.5, velocityY = 0, onGround = True\<rparr>],
      keys := {''ArrowRight''}\<rparr>"

text \<open>
  A brick whose left edge is behind the cleanup distance 600 while its right edge is not,
  in a state in which the generator is due: the player runs right at x = 1200, the last
  platform starts at x = 1300, and the camera offset in the closure is the current one.
\<close>

definition passedBrick :: brick where
  "passedBrick = \<lparr>x = 590, y = 300, width = 25, height = 25,
                   broken = False, hasPowerUp = False, powerUpType = None\<rparr>"

definition cleanupExample :: game where
  "cleanupExample = (initialGame (\<lambda>i. 0))
     \<lparr>player := \<lparr>x = 1200, y = 400, width = 30, height = 30,
                   velocityX = 5, velocityY = 0, onGround = True\<rparr>,
      platforms := [\<lparr>x = 580, y = 350, width = 100, height = 20\<rparr>,
                    \<lparr>x = 900, y = 350, width = 100, height = 20\<rparr>,
                    \<lparr>x = 1300, y = 350, width = 100, height = 20\<rparr>],
      bricks := [passedBrick],
      keys := {''ArrowRight''},
      cameraX := 800,
      closureCameraX := 800,
      randomCalls := 24\<rparr>"

text \<open>
  The player running right on the ground line, 200 units before the left edge of the last
  platform.
\<close>

definition thresholdExample :: game where
  "thresholdExample = (initialGame (\<lambda>i. 0))
     \<lparr>player := \<lparr>x = 280, y = 400, width = 30, height = 30,
                   velocityX = 5, velocityY = 0, onGround = True\<rparr>,
      platforms := [\<lparr>x = 0, y = 400, width = 200, height = 40\<rparr>,
                    \<lparr>x = 480, y = 350, width = 100, height = 20\<rparr>],
      keys := {''ArrowRight''},
      randomCalls := 8\<rparr>"

text \<open>Twelve frames after the start, with no key held: the player falls.\<close>

definition fallingExample :: game where
  "fallingExample = (gameLoop ^^ 12) (initialGame (\<lambda>i. 0))"

text \<open>A player moving upwards, and bricks it does not touch or hits from below.\<close>

definition risingPlayer :: gameObject where
  "risingPlayer = \<lparr>x = 295, y = 360, width = 30, height = 30,
                    velocityX = 0, velocityY = - 5, onGround = False\<rparr>"

definition farBrick :: brick where
  "farBrick = \<lparr>x = 100, y = 350, width = 25, height = 25,
                broken = False, hasPowerUp = True, powerUpType = Some Coin\<rparr>"

definition shieldBrick :: brick where
  "shieldBrick = \<lparr>x = 300, y = 350, width = 25, height = 25,
                   broken = False, hasPowerUp = True, powerUpType = Some (Modifier Shield)\<rparr>"

definition coinBrick :: brick where
  "coinBrick = \<lparr>x = 310, y = 345, width = 25, height = 25,
                 broken = False, hasPowerUp = True, powerUpType = Some Coin\<rparr>"

text \<open>
  The first half of the body of the power-up loop: the fall of an uncollected power-up and
  its landing on the platforms.
\<close>

definition fallPowerUp :: "platform list \<Rightarrow> powerUp \<Rightarrow> powerUp" where
  "fallPowerUp pfs pu =
     (let pu1 = pu\<lparr>powerUp.velocityY := powerUp.velocityY pu + GRAVITY * 0.5\<rparr>;
          pu2 = pu1\<lparr>y := y pu1 + powerUp.velocityY pu1\<rparr>
      in fold powerUpLanding pfs pu2)"

text \<open>
  The power-up that \<open>shieldBrick\<close> releases, and a state in which the player, jumping,
  reaches \<open>shieldBrick\<close> from below in the next frame; no platform is due.
\<close>

definition shieldBoost :: powerUp where
  "shieldBoost = \<lparr>x = 300, y = 375, width = 20, height = 20,
                   type = Shield, powerUp.collected = False, powerUp.velocityY = 0\<rparr>"

definition breakExample :: game where
  "breakExample = (initialGame (\<lambda>i. 0))
     \<lparr>player := \<lparr>x = 295, y = 365, width = 30, height = 30,
                   velocityX = 0, velocityY = - 5.8, onGround = False\<rparr>,
      platforms := [\<lparr>x = 0, y = 400, width = 200, height = 40\<rparr>,
                    \<lparr>x = 600, y = 380, width = 80, height = 20\<rparr>],
      bricks := [shieldBrick],
      randomCalls := 8\<rparr>"

section \<open>Lemmas\<close>

lemmas tick_defs = updateGame_def movedPlayer_def spawnDue_def localArrays_def spawnGroup_def
  handleInput_def updatePhysics_def followCamera_def clampedCameraX_def cameraSpeed_def
  checkPlatforms_def platformCollision_def overlaps_def checkBricks_def brickCollision_def
  updatePowerUp_def powerUpLanding_def patrol_def updateEnemy_def collectCoin_def keepInBounds_def
  GRAVITY_def JUMP_FORCE_def MOVE_SPEED_def CANVAS_WIDTH_def FINISH_LINE_def setFlag_def
  gameLoop_def rerender_def

subsection \<open>Loops\<close>

lemma forEach_length: "length (fst (forEach f as s)) = length as"
  by (induction as arbitrary: s) (simp_all add: split_beta Let_def)

lemma fold_unchanged: "(\<And>q. q \<in> set qs \<Longrightarrow> f q s = s) \<Longrightarrow> fold f qs s = s"
  by (induction qs) simp_all

subsection \<open>Fields a render leaves alone, and fields of the tick\<close>

lemma rerender_fields [simp]:
  "player (rerender old new) = player new"
  "platforms (rerender old new) = platforms new"
  "gameState (rerender old new) = gameState new"
  "cameraX (rerender old new) = cameraX new"
  "randoms (rerender old new) = randoms new"
  "randomCalls (rerender old new) = randomCalls new"
  "bricks (rerender old new) = bricks new"
  "score (rerender old new) = score new"
  by (simp_all add: rerender_def)

lemma updateGame_cameraX: "cameraX (updateGame g) = followCamera (movedPlayer g) (cameraX g)"
  by (simp add: updateGame_def Let_def split_beta)

lemma updateGame_randoms: "randoms (updateGame g) = randoms g"
  by (simp add: updateGame_def Let_def split_beta)

lemma updateGame_randomCalls: "randomCalls (updateGame g) = randomCalls (localArrays g)"
  by (simp add: updateGame_def Let_def split_beta)

lemma updateGame_platforms:
  "platforms (updateGame g) =
     (if spawnDue g
      then filter (\<lambda>p. x p + width p > closureCameraX g - 200) (platforms (localArrays g))
      else platforms g)"
  by (simp add: updateGame_def Let_def split_beta localArrays_def)

lemma keepInBounds_x: "FINISH_LINE \<le> x (keepInBounds p) \<longleftrightarrow> FINISH_LINE \<le> x p"
  by (simp add: keepInBounds_def FINISH_LINE_def Let_def)

lemma updateGame_won:
  "FINISH_LINE \<le> x (player (updateGame g)) \<Longrightarrow> gameState (updateGame g) = Won"
  by (simp add: updateGame_def Let_def split_beta keepInBounds_x)

subsection \<open>The camera\<close>

lemma lerp_range:
  fixes a c s lo hi :: real
  assumes "0 \<le> s" "s \<le> 1" "lo \<le> a" "a \<le> hi" "lo \<le> c" "c \<le> hi"
  shows "lo \<le> a + (c - a) * s \<and> a + (c - a) * s \<le> hi"
proof -
  have eq: "a + (c - a) * s = (1 - s) * a + s * c"
    by (simp add: algebra_simps)
  have "(1 - s) * lo \<le> (1 - s) * a" "s * lo \<le> s * c"
    using assms by (simp_all add: mult_left_mono)
  then have "(1 - s) * lo + s * lo \<le> (1 - s) * a + s * c"
    by (rule add_mono)
  then have lower: "lo \<le> (1 - s) * a + s * c"
    by (simp add: algebra_simps)
  have "(1 - s) * a \<le> (1 - s) * hi" "s * c \<le> s * hi"
    using assms by (simp_all add: mult_left_mono)
  then have "(1 - s) * a + s * c \<le> (1 - s) * hi + s * hi"
    by (rule add_mono)
  then have upper: "(1 - s) * a + s * c \<le> hi"
    by (simp add: algebra_simps)
  show ?thesis using lower upper by (simp only: eq)
qed

lemma cameraSpeed_cases: "cameraSpeed p = 0.4 \<or> cameraSpeed p = 0.2 \<or> cameraSpeed p = 0.3"
  unfolding cameraSpeed_def by (cases "0 < velocityX p"; cases "velocityX p < 0") simp_all

lemma cameraSpeed_unit: "0 \<le> cameraSpeed p \<and> cameraSpeed p \<le> 1"
  by (simp add: cameraSpeed_def)

lemma clampedCameraX_range:
  "0 \<le> clampedCameraX p \<and> clampedCameraX p \<le> FINISH_LINE - CANVAS_WIDTH"
  by (simp add: clampedCameraX_def FINISH_LINE_def CANVAS_WIDTH_def)

lemma followCamera_range:
  assumes "0 \<le> prev" "prev \<le> FINISH_LINE - CANVAS_WIDTH"
  shows "0 \<le> followCamera p prev \<and> followCamera p prev \<le> FINISH_LINE - CANVAS_WIDTH"
  unfolding followCamera_def
  using cameraSpeed_unit [of p] clampedCameraX_range [of p] assms
  by (intro lerp_range) simp_all

lemma reachable_camera:
  "reachable g \<Longrightarrow> 0 \<le> cameraX g \<and> cameraX g \<le> FINISH_LINE - CANVAS_WIDTH"
proof (induction rule: reachable.induct)
  case (start rnd)
  then show ?case by (simp add: initialGame_def FINISH_LINE_def CANVAS_WIDTH_def)
next
  case (frame g)
  then show ?case
    by (simp add: gameLoop_def updateGame_cameraX followCamera_range)
next
  case (keyDown g k)
  then show ?case by (simp add: handleKeyDown_def)
next
  case (keyUp g k)
  then show ?case by (simp add: handleKeyUp_def)
next
  case (timeout g m)
  then show ?case by (simp add: timeoutFires_def)
next
  case (playAgain g)
  then show ?case by (simp add: resetGame_def FINISH_LINE_def CANVAS_WIDTH_def)
next
  case (resume g)
  then show ?case by simp
next
  case (theme g)
  then show ?case by (simp add: toggleDarkMode_def)
qed

lemma reachable_frames: "reachable g \<Longrightarrow> reachable ((gameLoop ^^ n) g)"
  by (induction n) (simp_all add: reachable.frame)

subsection \<open>The brick loop\<close>

lemma brickCollision_miss:
  "\<not> headHit p b \<Longrightarrow> brickCollision b (p, sc, pushed) = (b, (p, sc, pushed))"
  by (auto simp: brickCollision_def headHit_def)

lemma brickCollision_hit:
  "headHit p b \<Longrightarrow>
   brickCollision b (p, sc, pushed) =
     (b\<lparr>broken := True\<rparr>,
      (p\<lparr>velocityY := 2\<rparr>,
       (if hasPowerUp b \<and> powerUpType b = Some Coin then sc + 100 else sc),
       (case powerUpType b of
          Some (Modifier m) \<Rightarrow>
            if hasPowerUp b
            then pushed @ [\<lparr>x = x b, y = y b + height b, width = 20, height = 20,
                           type = m, powerUp.collected = False, powerUp.velocityY = 0\<rparr>]
            else pushed
        | _ \<Rightarrow> pushed)))"
  by (auto simp: brickCollision_def headHit_def)

lemma checkBricks_none:
  "\<forall>b \<in> set bs. \<not> headHit p b \<Longrightarrow> checkBricks bs (p, sc, pushed) = (bs, (p, sc, pushed))"
  by (induction bs) (simp_all add: checkBricks_def brickCollision_miss)

lemma checkBricks_Cons_hit:
  assumes "headHit p b"
  shows "checkBricks (b # bs) (p, sc, pushed) =
           (fst (brickCollision b (p, sc, pushed)) # bs, snd (brickCollision b (p, sc, pushed)))"
proof -
  obtain b' p' sc' pushed' where br: "brickCollision b (p, sc, pushed) = (b', (p', sc', pushed'))"
    by (metis prod_cases3 surj_pair)
  then have "velocityY p' = 2"
    using brickCollision_hit [OF assms, of sc pushed] by auto
  then have "\<forall>c \<in> set bs. \<not> headHit p' c"
    by (simp add: headHit_def)
  then have "checkBricks bs (p', sc', pushed') = (bs, (p', sc', pushed'))"
    by (rule checkBricks_none)
  then show ?thesis
    using br by (simp add: checkBricks_def)
qed

lemma checkBricks_Cons_miss:
  assumes "\<not> headHit p b"
  shows "checkBricks (b # bs) (p, sc, pushed) =
           (b # fst (checkBricks bs (p, sc, pushed)), snd (checkBricks bs (p, sc, pushed)))"
  using assms by (simp add: checkBricks_def brickCollision_miss split_beta)

lemma checkBricks_first_hit:
  assumes "\<forall>c \<in> set pre. \<not> headHit p c" and "headHit p b"
  shows "checkBricks (pre @ b # post) (p, sc, pushed) =
           (pre @ fst (brickCollision b (p, sc, pushed)) # post,
            snd (brickCollision b (p, sc, pushed)))"
  using assms
proof (induction pre)
  case Nil
  then show ?case by (simp add: checkBricks_Cons_hit)
next
  case (Cons c pre)
  then show ?case by (simp add: checkBricks_Cons_miss)
qed

lemma newlyBroken_same: "newlyBroken bs bs = 0"
  by (induction bs) (auto simp: newlyBroken_def)

lemma newlyBroken_Cons:
  "newlyBroken (b # bs) (b' # bs') =
     (if \<not> broken b \<and> broken b' then 1 else 0) + newlyBroken bs bs'"
  by (simp add: newlyBroken_def)

lemma checkBricks_newlyBroken:
  "newlyBroken bs (fst (checkBricks bs (p, sc, pushed))) \<le> 1"
proof (induction bs)
  case Nil
  then show ?case by (simp add: checkBricks_def newlyBroken_def)
next
  case (Cons b bs)
  show ?case
  proof (cases "headHit p b")
    case True
    then show ?thesis
      by (simp add: checkBricks_Cons_hit newlyBroken_Cons newlyBroken_same)
  next
    case False
    then show ?thesis using Cons
      by (simp add: checkBricks_Cons_miss newlyBroken_Cons)
  qed
qed

lemma checkBricks_broken_count:
  "length (filter broken (fst (checkBricks bs (p, sc, pushed)))) \<le> length (filter broken bs) + 1"
proof (induction bs)
  case Nil
  then show ?case by (simp add: checkBricks_def)
next
  case (Cons b bs)
  show ?case
  proof (cases "headHit p b")
    case True
    then show ?thesis
      by (simp add: checkBricks_Cons_hit brickCollision_hit)
  next
    case False
    then show ?thesis using Cons
      by (simp add: checkBricks_Cons_miss)
  qed
qed

subsection \<open>The player's box\<close>

lemma handleInput_box [simp]:
  "width (handleInput pa ks p) = width p" "height (handleInput pa ks p) = height p"
  by (simp_all add: handleInput_def Let_def)

lemma updatePhysics_box [simp]:
  "width (updatePhysics p) = width p" "height (updatePhysics p) = height p"
  by (simp_all add: updatePhysics_def Let_def)

lemma movedPlayer_box [simp]:
  "width (movedPlayer g) = width (player g)" "height (movedPlayer g) = height (player g)"
  by (simp_all add: movedPlayer_def)

lemma platformCollision_box [simp]:
  "width (platformCollision pf p) = width p" "height (platformCollision pf p) = height p"
  by (simp_all add: platformCollision_def)

lemma fold_platformCollision_box [simp]:
  "width (fold platformCollision pfs p) = width p"
  "height (fold platformCollision pfs p) = height p"
  by (induction pfs arbitrary: p) simp_all

lemma checkPlatforms_box [simp]:
  "width (checkPlatforms pfs p) = width p" "height (checkPlatforms pfs p) = height p"
  by (simp_all add: checkPlatforms_def)

lemma brickCollision_box:
  "width (fst (snd (brickCollision b (p, sc, pushed)))) = width p"
  by (simp add: brickCollision_def)

lemma checkBricks_box [simp]:
  "width (fst (snd (checkBricks bs (p, sc, pushed)))) = width p"
proof (induction bs arbitrary: p sc pushed)
  case Nil
  then show ?case by (simp add: checkBricks_def)
next
  case (Cons b bs)
  obtain b' p' sc' pushed' where step: "brickCollision b (p, sc, pushed) = (b', (p', sc', pushed'))"
    by (metis prod_cases3 surj_pair)
  then have "width p' = width p"
    using brickCollision_box [of b p sc pushed] by simp
  then show ?case
    using Cons [of p' sc' pushed'] step by (simp add: checkBricks_def split_beta)
qed

lemma updateEnemy_box:
  "width (fst (snd (updateEnemy pfs sh e (p, sc, gs)))) = width p"
  by (simp add: updateEnemy_def Let_def)

lemma enemyLoop_box [simp]:
  "width (fst (snd (enemyLoop pfs sh es (p, sc, gs)))) = width p"
proof (induction pfs sh es "(p, sc, gs)" arbitrary: p sc gs rule: enemyLoop.induct)
  case (1 pfs sh)
  then show ?case by simp
next
  case (2 pfs sh e)
  then show ?case using updateEnemy_box [of pfs sh e p sc gs] by (simp add: split_beta)
next
  case (3 pfs sh e skipped es)
  obtain r p' sc' gs' where step: "updateEnemy pfs sh e (p, sc, gs) = (r, (p', sc', gs'))"
    by (metis prod_cases3)
  then have w: "width p' = width p"
    using updateEnemy_box [of pfs sh e p sc gs] by simp
  show ?case
  proof (cases "snd r")
    case True
    have "width (fst (snd (enemyLoop pfs sh es (p', sc', gs')))) = width p'"
      by (rule "3.hyps"(1) [OF refl step [symmetric] True])
    then show ?thesis using True w by (simp add: step split_beta)
  next
    case False
    have "width (fst (snd (enemyLoop pfs sh (skipped # es) (p', sc', gs')))) = width p'"
      by (rule "3.hyps"(2) [OF refl step [symmetric] False])
    then show ?thesis using False w by (simp add: step split_beta)
  qed
qed

lemma keepInBounds_box [simp]: "width (keepInBounds p) = width p"
  by (simp add: keepInBounds_def Let_def)

lemma updateGame_player_width: "width (player (updateGame g)) = width (player g)"
  by (simp add: updateGame_def Let_def split_beta)

subsection \<open>Platforms stay apart\<close>

lemma sorted_wrt_last:
  assumes "sorted_wrt R pfs" "a \<in> set (butlast pfs)"
  shows "R a (last pfs)"
proof -
  have ne: "pfs \<noteq> []" using assms(2) by auto
  have "sorted_wrt R (butlast pfs @ [last pfs])"
    using assms(1) ne by simp
  then show ?thesis using assms(2) by (simp add: sorted_wrt_append)
qed

lemma last_or_butlast: "a \<in> set pfs \<Longrightarrow> a = last pfs \<or> a \<in> set (butlast pfs)"
  by (induction pfs) auto

lemma spawnGroup_platforms:
  "platforms (spawnGroup lp g) =
     platforms g @ [\<lparr>x = x lp + width lp + randoms g (randomCalls g) * 200 + 100,
                     y = 400 - (randoms g (randomCalls g + 1) * 60 + 20),
                     width = randoms g (randomCalls g + 2) * 100 + 80, height = 20\<rparr>]"
  by (simp add: spawnGroup_def Let_def split_beta)

lemma spawnGroup_randoms [simp]: "randoms (spawnGroup lp g) = randoms g"
  by (simp add: spawnGroup_def Let_def split_beta)

lemma separated_spawnGroup:
  assumes sep: "separated (platforms g)" and ne: "platforms g \<noteq> []"
      and rnd: "unitRange (randoms g)"
  shows "separated (platforms (spawnGroup (last (platforms g)) g))"
proof -
  let ?lp = "last (platforms g)"
  let ?r0 = "randoms g (randomCalls g)" and ?r2 = "randoms g (randomCalls g + 2)"
  let ?new = "\<lparr>x = x ?lp + width ?lp + ?r0 * 200 + 100,
                y = 400 - (randoms g (randomCalls g + 1) * 60 + 20),
                width = ?r2 * 100 + 80, height = 20\<rparr>"
  have r: "0 \<le> ?r0" "0 \<le> ?r2"
    using rnd by (simp_all add: unitRange_def)
  have srt: "sorted_wrt apart (platforms g)"
    and wid: "\<And>a. a \<in> set (platforms g) \<Longrightarrow> 0 \<le> width a"
    using sep by (simp_all add: separated_def list_all_iff)
  have lpw: "0 \<le> width ?lp"
    using wid ne by simp
  have "apart a ?new" if "a \<in> set (platforms g)" for a
  proof (cases "a \<in> set (butlast (platforms g))")
    case True
    then have "apart a ?lp"
      using srt by (rule sorted_wrt_last [rotated])
    then show ?thesis
      using r lpw by (simp add: apart_def)
  next
    case False
    then have "a = ?lp"
      using that last_or_butlast [of a "platforms g"] by simp
    then show ?thesis
      using r by (simp add: apart_def)
  qed
  then have "sorted_wrt apart (platforms g @ [?new])"
    using srt by (simp add: sorted_wrt_append)
  moreover have "list_all (\<lambda>p. 0 \<le> width p) (platforms g @ [?new])"
    using sep r by (simp add: separated_def)
  ultimately show ?thesis
    by (simp add: separated_def spawnGroup_platforms)
qed

lemma separated_filter: "separated pfs \<Longrightarrow> separated (filter P pfs)"
  by (simp add: separated_def sorted_wrt_filter list_all_iff)

lemma separated_localArrays:
  "separated (platforms g) \<Longrightarrow> unitRange (randoms g) \<Longrightarrow> separated (platforms (localArrays g))"
  by (simp add: localArrays_def spawnDue_def separated_spawnGroup)

lemma updateGame_wellFormed:
  assumes "wellFormed g" "unitRange (randoms g)"
  shows "wellFormed (updateGame g)"
  using assms
  by (simp add: wellFormed_def updateGame_platforms updateGame_player_width
      separated_filter separated_localArrays)

lemma reachable_wellFormed:
  "reachable g \<Longrightarrow> wellFormed g \<and> unitRange (randoms g)"
proof (induction rule: reachable.induct)
  case (start rnd)
  then show ?case by (simp add: initialGame_def wellFormed_def separated_def unitRange_def)
next
  case (frame g)
  then show ?case
    using updateGame_wellFormed [of g]
    by (simp add: gameLoop_def wellFormed_def updateGame_randoms)
next
  case (keyDown g k)
  then show ?case by (simp add: handleKeyDown_def wellFormed_def)
next
  case (keyUp g k)
  then show ?case by (simp add: handleKeyUp_def wellFormed_def)
next
  case (timeout g m)
  then show ?case by (simp add: timeoutFires_def wellFormed_def)
next
  case (playAgain g)
  then show ?case by (simp add: resetGame_def wellFormed_def separated_def)
next
  case (resume g)
  then show ?case by (simp add: wellFormed_def)
next
  case (theme g)
  then show ?case by (simp add: toggleDarkMode_def wellFormed_def)
qed

subsection \<open>Landing\<close>

lemma platformCollision_clear:
  "\<not> (x p < x pf + width pf \<and> x p + width p > x pf) \<Longrightarrow> platformCollision pf p = p"
  by (auto simp: platformCollision_def overlaps_def)

lemma apart_clear_before:
  assumes "apart a pf" "x pf < x p + width p" "width p \<le> 100"
  shows "\<not> (x p < x a + width a \<and> x p + width p > x a)"
  using assms by (simp add: apart_def)

lemma apart_clear_after:
  assumes "apart pf b" "x p < x pf + width pf" "width p \<le> 100"
  shows "\<not> (x p < x b + width b \<and> x p + width p > x b)"
  using assms by (simp add: apart_def)

lemma landing_separated:
  assumes sep: "sorted_wrt apart pfs" and w: "width p \<le> 100"
      and mem: "pf \<in> set pfs" and ov: "overlaps p pf"
      and vy: "velocityY p > 0" and above: "y p < y pf"
  shows "checkPlatforms pfs p = p\<lparr>y := y pf - height p, velocityY := 0, onGround := True\<rparr>"
proof -
  obtain pre post where split: "pfs = pre @ pf # post"
    using mem by (auto dest: split_list)
  have before: "\<And>a. a \<in> set pre \<Longrightarrow> apart a pf"
    and after: "\<And>b. b \<in> set post \<Longrightarrow> apart pf b"
    using sep by (auto simp: split sorted_wrt_append)
  let ?p0 = "p\<lparr>onGround := False\<rparr>"
  let ?p1 = "p\<lparr>y := y pf - height p, velocityY := 0, onGround := True\<rparr>"
  have xo: "x p < x pf + width pf" "x pf < x p + width p"
    using ov by (simp_all add: overlaps_def)
  have "fold platformCollision pre ?p0 = ?p0"
  proof (rule fold_unchanged)
    fix a assume "a \<in> set pre"
    then have "\<not> (x p < x a + width a \<and> x p + width p > x a)"
      using apart_clear_before [OF before xo(2) w] by blast
    then show "platformCollision a ?p0 = ?p0"
      by (intro platformCollision_clear) simp
  qed
  moreover have "platformCollision pf ?p0 = ?p1"
    using ov vy above by (simp add: platformCollision_def overlaps_def)
  moreover have "fold platformCollision post ?p1 = ?p1"
  proof (rule fold_unchanged)
    fix b assume "b \<in> set post"
    then have "\<not> (x p < x b + width b \<and> x p + width p > x b)"
      using apart_clear_after [OF after xo(1) w] by blast
    then show "platformCollision b ?p1 = ?p1"
      by (intro platformCollision_clear) simp
  qed
  ultimately show ?thesis
    by (simp add: checkPlatforms_def split)
qed

subsection \<open>The generator and the bricks of a tick\<close>

lemma spawnBricks_cursor: "c \<le> snd (spawnBricks rnd sx py i k c)"
proof (induction k arbitrary: i c)
  case 0
  then show ?case by simp
next
  case (Suc k)
  have "c + 2 \<le> snd (spawnBricks rnd sx py (i + 1) k (c + 2))"
       "c + 3 \<le> snd (spawnBricks rnd sx py (i + 1) k (c + 3))"
    by (rule Suc)+
  then show ?case by (simp add: Let_def split_beta)
qed

lemma spawnBricks_unbroken: "b \<in> set (fst (spawnBricks rnd sx py i k c)) \<Longrightarrow> \<not> broken b"
  by (induction k arbitrary: i c) (auto simp: Let_def split_beta)

lemma spawnGroup_randomCalls: "randomCalls g < randomCalls (spawnGroup lp g)"
proof -
  let ?t = "spawnBricks (randoms g)
      (x lp + width lp + randoms g (randomCalls g) * 200 + 100)
      (400 - (randoms g (randomCalls g + 1) * 60 + 20)) 0
      (nat \<lfloor>randoms g (randomCalls g + 3) * 3\<rfloor> + 1) (randomCalls g + 4)"
  have "randomCalls g + 4 \<le> snd ?t"
    by (rule spawnBricks_cursor)
  then show ?thesis
    by (simp add: spawnGroup_def Let_def split_beta)
qed

lemma spawnGroup_bricks_broken: "filter broken (bricks (spawnGroup lp g)) = filter broken (bricks g)"
  by (simp add: spawnGroup_def Let_def split_beta spawnBricks_unbroken)

lemma localArrays_bricks_broken:
  "filter broken (bricks (localArrays g)) = filter broken (bricks g)"
  by (simp add: localArrays_def spawnGroup_bricks_broken)

lemma updateGame_bricks:
  "bricks (updateGame g) =
     (if spawnDue g
      then filter (\<lambda>b. x b > closureCameraX g - 200)
             (fst (checkBricks (bricks (localArrays g))
                (checkPlatforms (platforms (localArrays g)) (movedPlayer g), score g, [])))
      else fst (checkBricks (bricks (localArrays g))
                (checkPlatforms (platforms (localArrays g)) (movedPlayer g), score g, [])))"
  by (simp add: updateGame_def Let_def split_beta)

lemma filter_broken_filter:
  "length (filter broken (filter Q bs)) \<le> length (filter broken bs)"
proof -
  have "filter broken (filter Q bs) = filter Q (filter broken bs)"
    by (induction bs) simp_all
  then show ?thesis by (simp only: length_filter_le)
qed

lemma updateGame_broken_count:
  "length (filter broken (bricks (updateGame g))) \<le> length (filter broken (bricks g)) + 1"
proof -
  let ?bs' = "fst (checkBricks (bricks (localArrays g))
                (checkPlatforms (platforms (localArrays g)) (movedPlayer g), score g, []))"
  have "length (filter broken ?bs') \<le> length (filter broken (bricks (localArrays g))) + 1"
    by (rule checkBricks_broken_count)
  then have base: "length (filter broken ?bs') \<le> length (filter broken (bricks g)) + 1"
    by (simp add: localArrays_bricks_broken)
  show ?thesis
  proof (cases "spawnDue g")
    case True
    have "length (filter broken (filter (\<lambda>b. x b > closureCameraX g - 200) ?bs'))
            \<le> length (filter broken ?bs')"
      by (rule filter_broken_filter)
    then show ?thesis using True base by (simp add: updateGame_bricks)
  next
    case False
    then show ?thesis using base by (simp add: updateGame_bricks)
  qed
qed

lemma localArrays_randomCalls:
  "randomCalls (localArrays g) \<noteq> randomCalls g \<longleftrightarrow> spawnDue g"
  using spawnGroup_randomCalls [of g "last (platforms g)"] by (simp add: localArrays_def)

lemma spawnObstacles_nonempty:
  "platforms g \<noteq> [] \<Longrightarrow> spawnObstacles g = Inr (cleanup (spawnGroup (last (platforms g)) g))"
  by (cases "platforms g") (simp_all add: spawnObstacles_def)

lemma spawnGroup_closureCameraX [simp]: "closureCameraX (spawnGroup lp g) = closureCameraX g"
  by (simp add: spawnGroup_def Let_def split_beta)

lemma cleanup_bricks_ahead: "b \<in> set (bricks (cleanup g)) \<Longrightarrow> x b > closureCameraX g - 200"
  by (simp add: cleanup_def Let_def)

lemma updateGame_runs_generator:
  assumes "spawnDue g"
  shows "\<exists>g'. spawnObstacles g = Inr g' \<and> platforms (updateGame g) = platforms g'
              \<and> randomCalls (updateGame g) = randomCalls g'"
proof -
  have ne: "platforms g \<noteq> []"
    using assms by (simp add: spawnDue_def)
  have "platforms (updateGame g) = platforms (cleanup (spawnGroup (last (platforms g)) g))"
    using assms by (simp add: updateGame_platforms localArrays_def cleanup_def spawnGroup_def
        Let_def split_beta)
  moreover have "randomCalls (updateGame g) = randomCalls (cleanup (spawnGroup (last (platforms g)) g))"
    using assms by (simp add: updateGame_randomCalls localArrays_def cleanup_def Let_def)
  ultimately show ?thesis
    using ne by (simp add: spawnObstacles_nonempty)
qed

lemma fallingExample_eq:
  "fallingExample =
     (initialGame (\<lambda>i. 0))
       \<lparr>player := \<lparr>x = 100, y = 362.4, width = 30, height = 30,
                     velocityX = 0, velocityY = 9.6, onGround = False\<rparr>,
        platforms := [\<lparr>x = 0, y = 400, width = 200, height = 40\<rparr>,
                      \<lparr>x = 300, y = 380, width = 80, height = 20\<rparr>],
        bricks := [\<lparr>x = 300, y = 350, width = 25, height = 25,
                     broken = False, hasPowerUp = False, powerUpType = None\<rparr>],
        randomCalls := 8\<rparr>"
  by (simp add: fallingExample_def tick_defs initialGame_def Let_def eval_nat_numeral)


subsection \<open>The power-up loop\<close>

lemma fold_powerUpLanding_fields [simp]:
  "x (fold powerUpLanding pfs r) = x r"
  "width (fold powerUpLanding pfs r) = width r"
  "height (fold powerUpLanding pfs r) = height r"
  "type (fold powerUpLanding pfs r) = type r"
  "powerUp.collected (fold powerUpLanding pfs r) = powerUp.collected r"
  by (induction pfs arbitrary: r) (simp_all add: powerUpLanding_def)

lemma fallPowerUp_fields [simp]:
  "x (fallPowerUp pfs pu) = x pu"
  "width (fallPowerUp pfs pu) = width pu"
  "height (fallPowerUp pfs pu) = height pu"
  "type (fallPowerUp pfs pu) = type pu"
  "powerUp.collected (fallPowerUp pfs pu) = powerUp.collected pu"
  by (simp_all add: fallPowerUp_def Let_def)

lemma updatePowerUp_fall:
  "updatePowerUp pfs q pu (sc, pa, ts) =
     (if powerUp.collected pu then (pu, (sc, pa, ts))
      else if overlaps q (fallPowerUp pfs pu)
           then ((fallPowerUp pfs pu)\<lparr>powerUp.collected := True\<rparr>,
                 (sc + 50, setFlag (type pu) True pa, ts @ [type pu]))
           else (fallPowerUp pfs pu, (sc, pa, ts)))"
  by (simp add: updatePowerUp_def fallPowerUp_def Let_def)

section \<open>The claims\<close>

subsection \<open>C1: terminal states\<close>

text \<open>
  C1. A frame in a terminal state does nothing, but the pause key does not look at the
  state it toggles: in the state \<open>GameOver\<close> a key-down event of \<^verbatim>\<open>p\<close> sets the run
  state to \<open>Playing\<close> without any reset, and the next frame runs the simulation on the
  world as the lost run left it (here the player falls from y = 300 to y = 300.8).
\<close>

theorem pause_key_resumes_after_game_over:
  "gameLoop stoppedExample = stoppedExample
   \<and> gameState (rerender stoppedExample (handleKeyDown ''p'' stoppedExample)) = Playing
   \<and> y (player stoppedExample) = 300
   \<and> y (player (gameLoop (rerender stoppedExample (handleKeyDown ''p'' stoppedExample)))) = 300.8"
  by (simp add: stoppedExample_def handleKeyDown_def initialGame_def tick_defs Let_def)

subsection \<open>C2: cleanup of the generator\<close>

text \<open>
  C2 (as amended). Whenever the generator runs and the camera offset it reads is the
  current one, it keeps of the platforms (the new one included) exactly those whose right
  edge \<open>x + width\<close> is not at or behind \<open>cameraX - 200\<close>, and of the bricks, enemies, coins
  and power-ups exactly those whose left edge \<open>x\<close> is not at or behind \<open>cameraX - 200\<close>, in
  their order. Nothing is stated for a run of the generator whose closure holds an older
  camera offset.
\<close>

theorem cleanup_by_edges:
  assumes "spawnObstacles g = Inr g'" and "closureCameraX g = cameraX g"
  shows "platforms g' = filter (\<lambda>p. \<not> x p + width p \<le> cameraX g - 200)
                          (platforms (spawnGroup (last (platforms g)) g))
       \<and> bricks g' = filter (\<lambda>b. \<not> x b \<le> cameraX g - 200)
                          (bricks (spawnGroup (last (platforms g)) g))
       \<and> enemies g' = filter (\<lambda>e. \<not> x e \<le> cameraX g - 200)
                          (enemies (spawnGroup (last (platforms g)) g))
       \<and> coins g' = filter (\<lambda>c. \<not> x c \<le> cameraX g - 200)
                          (coins (spawnGroup (last (platforms g)) g))
       \<and> powerUps g' = filter (\<lambda>p. \<not> x p \<le> cameraX g - 200) (powerUps g)"
proof -
  have ne: "platforms g \<noteq> []"
    using assms(1) by (auto simp: spawnObstacles_def)
  then have "g' = cleanup (spawnGroup (last (platforms g)) g)"
    using assms(1) by (simp add: spawnObstacles_nonempty)
  then show ?thesis
    using assms(2) by (simp add: cleanup_def spawnGroup_def Let_def split_beta not_le)
qed

theorem cleanup_by_edges_witness:
  "spawnDue cleanupExample
   \<and> closureCameraX cleanupExample = cameraX cleanupExample
   \<and> spawnObstacles cleanupExample =
       Inr (cleanupExample
              \<lparr>platforms := [\<lparr>x = 580, y = 350, width = 100, height = 20\<rparr>,
                             \<lparr>x = 900, y = 350, width = 100, height = 20\<rparr>,
                             \<lparr>x = 1300, y = 350, width = 100, height = 20\<rparr>,
                             \<lparr>x = 1500, y = 380, width = 80, height = 20\<rparr>],
               bricks := [\<lparr>x = 1500, y = 350, width = 25, height = 25,
                            broken = False, hasPowerUp = False, powerUpType = None\<rparr>],
               randomCalls := 32\<rparr>)
   \<and> bricks (spawnGroup (last (platforms cleanupExample)) cleanupExample) =
       [passedBrick, \<lparr>x = 1500, y = 350, width = 25, height = 25,
                       broken = False, hasPowerUp = False, powerUpType = None\<rparr>]
   \<and> filter (\<lambda>b. \<not> x b \<le> cameraX cleanupExample - 200)
         (bricks (spawnGroup (last (platforms cleanupExample)) cleanupExample)) =
       [\<lparr>x = 1500, y = 350, width = 25, height = 25,
          broken = False, hasPowerUp = False, powerUpType = None\<rparr>]"
  using cleanup_by_edges
    [of cleanupExample "cleanup (spawnGroup (last (platforms cleanupExample)) cleanupExample)"]
  by (simp add: spawnObstacles_def cleanupExample_def passedBrick_def initialGame_def
      cleanup_def tick_defs Let_def)

text \<open>
  The claim as it stands fails. In \<open>cleanupExample\<close> the generator is due and reads the
  current camera offset 800; the brick at x = 590 has its right edge at 615, ahead of the
  cleanup distance 600, and is removed all the same, by the generator and so by the frame.
\<close>

theorem cleanup_trailing_edge_counterexample:
  "gameState cleanupExample = Playing
   \<and> spawnDue cleanupExample
   \<and> closureCameraX cleanupExample = cameraX cleanupExample
   \<and> passedBrick \<in> set (bricks cleanupExample)
   \<and> \<not> x passedBrick + width passedBrick \<le> cameraX cleanupExample - 200
   \<and> (\<exists>g'. spawnObstacles cleanupExample = Inr g' \<and> passedBrick \<notin> set (bricks g'))
   \<and> passedBrick \<notin> set (bricks (gameLoop cleanupExample))"
proof -
  have state: "gameState cleanupExample = Playing"
    "closureCameraX cleanupExample = cameraX cleanupExample"
    "cameraX cleanupExample - 200 = 600"
    "passedBrick \<in> set (bricks cleanupExample)"
    "x passedBrick = 590" "width passedBrick = 25"
    by (simp_all add: cleanupExample_def passedBrick_def initialGame_def)
  have due: "spawnDue cleanupExample"
    by (simp add: cleanupExample_def initialGame_def spawnDue_def movedPlayer_def
        handleInput_def updatePhysics_def MOVE_SPEED_def GRAVITY_def JUMP_FORCE_def Let_def)
  have "spawnObstacles cleanupExample =
          Inr (cleanup (spawnGroup (last (platforms cleanupExample)) cleanupExample))"
    by (rule spawnObstacles_nonempty) (simp add: cleanupExample_def)
  moreover have "passedBrick \<notin>
      set (bricks (cleanup (spawnGroup (last (platforms cleanupExample)) cleanupExample)))"
    using state
      cleanup_bricks_ahead [of passedBrick "spawnGroup (last (platforms cleanupExample)) cleanupExample"]
    by auto
  ultimately have generator:
    "\<exists>g'. spawnObstacles cleanupExample = Inr g' \<and> passedBrick \<notin> set (bricks g')"
    by simp
  have frame: "passedBrick \<notin> set (bricks (gameLoop cleanupExample))"
    using state due by (simp add: gameLoop_def rerender_def updateGame_bricks)
  show ?thesis
    using state due generator frame by simp
qed

subsection \<open>C3: when the generator runs\<close>

text \<open>
  C3 (as amended). In a frame in the state \<open>Playing\<close> the generator runs (it is the only
  code that draws random values, so: the number of values drawn grows) if and only if the
  platform array is not empty and the player's \<open>x\<close>, after the move of this frame, is
  greater than the left edge of the last platform of the array minus 200.
\<close>

theorem generator_trigger:
  assumes "gameState g = Playing"
  shows "(randomCalls (gameLoop g) \<noteq> randomCalls g)
           = (platforms g \<noteq> [] \<and> x (movedPlayer g) > x (last (platforms g)) - 200)"
  using assms localArrays_randomCalls [of g]
  by (simp add: gameLoop_def updateGame_randomCalls spawnDue_def)

theorem generator_trigger_witness:
  "gameState (initialGame (\<lambda>i. 0)) = Playing
   \<and> randomCalls (gameLoop (initialGame (\<lambda>i. 0))) = 8
   \<and> randomCalls (initialGame (\<lambda>i. 0)) = 0
   \<and> platforms (initialGame (\<lambda>i. 0)) \<noteq> []
   \<and> x (movedPlayer (initialGame (\<lambda>i. 0))) = 100
   \<and> x (last (platforms (initialGame (\<lambda>i. 0)))) - 200 = - 200"
  using generator_trigger [of "initialGame (\<lambda>i. 0)"]
  by (simp add: initialGame_def tick_defs Let_def)

text \<open>
  The claim as it stands fails: the player at x = 285 is not within 200 units of the right
  edge (580) of the last platform, and the generator runs: it draws eight random values and
  appends a platform.
\<close>

theorem generator_trigger_counterexample:
  "gameState thresholdExample = Playing
   \<and> \<not> x (movedPlayer thresholdExample)
        > x (last (platforms thresholdExample)) + width (last (platforms thresholdExample)) - 200
   \<and> randomCalls (gameLoop thresholdExample) = randomCalls thresholdExample + 8
   \<and> platforms (gameLoop thresholdExample) =
       platforms thresholdExample @ [\<lparr>x = 680, y = 380, width = 80, height = 20\<rparr>]"
  by (simp add: thresholdExample_def initialGame_def tick_defs Let_def)

subsection \<open>C4: patrolling enemies\<close>

text \<open>
  C4. What the code does with an enemy that, after its move, overlaps no platform and is
  right of the origin: the velocity is reversed and the enemy is put at \<open>x = - width\<close>,
  since \<^verbatim>\<open>platformRight\<close> still holds its initial value 0. An enemy as the generator
  places it, standing on its platform, touches the platform without overlapping it.
\<close>

theorem patrol_without_platform:
  assumes "find (\<lambda>pf. overlaps (e\<lparr>x := x e + velocityX e\<rparr>) pf) pfs = None"
      and "0 < x e + velocityX e" and "0 \<le> width e"
  shows "patrol pfs e = e\<lparr>x := - width e, velocityX := - velocityX e\<rparr>"
  using assms by (simp add: patrol_def Let_def)

theorem patrol_without_platform_example:
  "patrol [\<lparr>x = 0, y = 400, width = 200, height = 40\<rparr>, \<lparr>x = 400, y = 350, width = 130, height = 20\<rparr>]
      \<lparr>x = 420, y = 325, width = 25, height = 25, velocityX = - 1.5, velocityY = 0, onGround = True\<rparr>
   = \<lparr>x = - 25, y = 325, width = 25, height = 25, velocityX = 1.5, velocityY = 0, onGround = True\<rparr>"
  using patrol_without_platform
    [of "\<lparr>x = 420, y = 325, width = 25, height = 25,
          velocityX = - 1.5, velocityY = 0, onGround = True\<rparr>"
        "[\<lparr>x = 0, y = 400, width = 200, height = 40\<rparr>,
          \<lparr>x = 400, y = 350, width = 130, height = 20\<rparr>]"]
  by (simp add: overlaps_def)

subsection \<open>C5: the camera\<close>

text \<open>
  C5. In every state the component can reach, the camera offset lies between 0 and
  \<open>FINISH_LINE - CANVAS_WIDTH\<close> = 10000 - 800. It starts at 0, and a frame in the state
  \<open>Playing\<close> moves it towards the clamped target by the fraction 0.4, 0.2 or 0.3 of the
  remaining distance, for a player moving right, moving left or standing.
\<close>

theorem camera_in_range:
  assumes "reachable g"
  shows "0 \<le> cameraX g \<and> cameraX g \<le> FINISH_LINE - CANVAS_WIDTH
       \<and> FINISH_LINE - CANVAS_WIDTH = 10000 - 800
       \<and> cameraX (initialGame rnd) = 0
       \<and> cameraX (gameLoop g) =
           (if gameState g = Playing
            then cameraX g
                 + (max 0 (min (x (movedPlayer g) - 800 / 2) (10000 - 800)) - cameraX g)
                   * cameraSpeed (movedPlayer g)
            else cameraX g)
       \<and> cameraSpeed (movedPlayer g) =
           (if velocityX (movedPlayer g) > 0 then 0.4
            else if velocityX (movedPlayer g) < 0 then 0.2 else 0.3)"
  using reachable_camera [OF assms]
  by (simp add: gameLoop_def updateGame_cameraX followCamera_def clampedCameraX_def
      cameraSpeed_def FINISH_LINE_def CANVAS_WIDTH_def initialGame_def)

theorem camera_in_range_witness:
  "reachable (gameLoop (rerender (initialGame (\<lambda>i. 0))
      (handleKeyDown ''ArrowRight'' (initialGame (\<lambda>i. 0)))))
   \<and> x (player (gameLoop (rerender (initialGame (\<lambda>i. 0))
      (handleKeyDown ''ArrowRight'' (initialGame (\<lambda>i. 0)))))) = 105
   \<and> cameraX (gameLoop (rerender (initialGame (\<lambda>i. 0))
      (handleKeyDown ''ArrowRight'' (initialGame (\<lambda>i. 0))))) = 0"
proof -
  let ?g = "gameLoop (rerender (initialGame (\<lambda>i. 0))
      (handleKeyDown ''ArrowRight'' (initialGame (\<lambda>i. 0))))"
  have r: "reachable ?g"
    by (intro reachable.frame reachable.keyDown reachable.start) simp
  show ?thesis
    using r camera_in_range [OF r]
    by (simp add: initialGame_def handleKeyDown_def tick_defs Let_def)
qed

subsection \<open>C6: the finish line\<close>

text \<open>
  C6. A frame in the state \<open>Playing\<close> that leaves the player at or beyond x = 10000 ends
  in the state \<open>Won\<close>, whatever else happened in it: the win check comes after the enemy
  loop and overwrites a \<open>GameOver\<close> set there.
\<close>

theorem win_at_finish_line:
  assumes "gameState g = Playing" and "10000 \<le> x (player (gameLoop g))"
  shows "gameState (gameLoop g) = Won"
  using assms by (simp add: gameLoop_def updateGame_won FINISH_LINE_def)

text \<open>
  In \<open>finishExample\<close> the player crosses the line while touching an enemy from the side,
  without a shield. The same contact ten units earlier ends the run in \<open>GameOver\<close>.
\<close>

theorem win_at_finish_line_witness:
  "gameState finishExample = Playing \<and> 10000 \<le> x (player (gameLoop finishExample))
   \<and> gameState (gameLoop finishExample) = Won"
  using win_at_finish_line [of finishExample]
  by (simp add: finishExample_def initialGame_def tick_defs Let_def)

lemma lethal_contact_before_finish_line:
  "gameState (gameLoop (finishExample\<lparr>player := (player finishExample)\<lparr>x := 9989\<rparr>\<rparr>)) = GameOver"
  by (simp add: finishExample_def initialGame_def tick_defs Let_def)

subsection \<open>C7: restart\<close>

text \<open>
  C7. After the restart, whatever the state before: the player has its initial position,
  velocity and grounded flag (x = 100, y = 300, velocity 0, not grounded), the score and
  the camera offset are 0, the platform array holds the starting platform only, the arrays
  of bricks, enemies, coins and power-ups are empty, no modifier is active and the run
  state is \<open>Playing\<close>.
\<close>

theorem restart_is_full_reset:
  "player (resetGame g) =
     \<lparr>x = 100, y = 300, width = 30, height = 30, velocityX = 0, velocityY = 0, onGround = False\<rparr>
   \<and> player (resetGame g) = player (initialGame rnd)
   \<and> score (resetGame g) = 0
   \<and> cameraX (resetGame g) = 0
   \<and> platforms (resetGame g) = [\<lparr>x = 0, y = 400, width = 200, height = 40\<rparr>]
   \<and> bricks (resetGame g) = [] \<and> enemies (resetGame g) = []
   \<and> coins (resetGame g) = [] \<and> powerUps (resetGame g) = []
   \<and> powerUpActive (resetGame g) = \<lparr>speed = False, jump = False, shield = False\<rparr>
   \<and> gameState (resetGame g) = Playing"
  by (simp add: resetGame_def initialGame_def)

subsection \<open>C8: the reward of a brick\<close>

text \<open>
  C8 (as amended). When the brick loop reaches a brick \<open>b\<close> that the player hits from below
  (no brick before it being hit), the loop ends with \<open>b\<close> marked broken, every other brick
  as it was, and the player's vertical velocity 2. If the reward of \<open>b\<close> is a coin, the
  score has grown by 100 and no power-up was pushed; if it is a modifier \<open>m\<close>, the brick
  loop leaves the score unchanged and exactly one power-up of kind \<open>m\<close> was pushed, 20 by
  20, directly below the brick: at the brick's \<open>x\<close> and at \<open>y = b.y + b.height\<close>.
  The body of the power-up loop leaves a collected power-up alone; an uncollected one
  falls, and exactly when it then overlaps the player it is marked collected, the score
  grows by 50, its modifier is activated and the reset of the modifier is scheduled.
\<close>

theorem brick_reward:
  assumes "\<forall>c \<in> set pre. \<not> headHit p c" and "headHit p b"
  shows "fst (checkBricks (pre @ b # post) (p, sc, pushed)) = pre @ b\<lparr>broken := True\<rparr> # post
       \<and> fst (snd (checkBricks (pre @ b # post) (p, sc, pushed))) = p\<lparr>velocityY := 2\<rparr>
       \<and> (hasPowerUp b \<and> powerUpType b = Some Coin \<longrightarrow>
            snd (snd (checkBricks (pre @ b # post) (p, sc, pushed))) = (sc + 100, pushed))
       \<and> (hasPowerUp b \<and> powerUpType b = Some (Modifier m) \<longrightarrow>
            snd (snd (checkBricks (pre @ b # post) (p, sc, pushed))) =
              (sc, pushed @ [\<lparr>x = x b, y = y b + height b, width = 20, height = 20,
                              type = m, powerUp.collected = False, powerUp.velocityY = 0\<rparr>]))
       \<and> updatePowerUp pfs q pu (sc2, pa, ts) =
           (if powerUp.collected pu then (pu, (sc2, pa, ts))
            else if overlaps q (fallPowerUp pfs pu)
                 then ((fallPowerUp pfs pu)\<lparr>powerUp.collected := True\<rparr>,
                       (sc2 + 50, setFlag (type pu) True pa, ts @ [type pu]))
                 else (fallPowerUp pfs pu, (sc2, pa, ts)))"
proof -
  have "checkBricks (pre @ b # post) (p, sc, pushed) =
          (pre @ fst (brickCollision b (p, sc, pushed)) # post, snd (brickCollision b (p, sc, pushed)))"
    using assms by (rule checkBricks_first_hit)
  then have bricks:
    "fst (checkBricks (pre @ b # post) (p, sc, pushed)) = pre @ b\<lparr>broken := True\<rparr> # post"
    "fst (snd (checkBricks (pre @ b # post) (p, sc, pushed))) = p\<lparr>velocityY := 2\<rparr>"
    "hasPowerUp b \<and> powerUpType b = Some Coin \<longrightarrow>
       snd (snd (checkBricks (pre @ b # post) (p, sc, pushed))) = (sc + 100, pushed)"
    "hasPowerUp b \<and> powerUpType b = Some (Modifier m) \<longrightarrow>
       snd (snd (checkBricks (pre @ b # post) (p, sc, pushed))) =
         (sc, pushed @ [\<lparr>x = x b, y = y b + height b, width = 20, height = 20,
                         type = m, powerUp.collected = False, powerUp.velocityY = 0\<rparr>])"
    using brickCollision_hit [OF assms(2), of sc pushed] by simp_all
  show ?thesis
    using bricks updatePowerUp_fall [of pfs q pu sc2 pa ts] by blast
qed

text \<open>
  The player of \<open>risingPlayer\<close> passes \<open>farBrick\<close>, breaks \<open>shieldBrick\<close> and, bounced,
  no longer breaks \<open>coinBrick\<close>; the power-up released falls by 0.4, overlaps the player
  and is collected for 50 points.
\<close>

theorem brick_reward_witness:
  "\<not> headHit risingPlayer farBrick \<and> headHit risingPlayer shieldBrick
   \<and> checkBricks [farBrick, shieldBrick, coinBrick] (risingPlayer, 0, []) =
       ([farBrick, shieldBrick\<lparr>broken := True\<rparr>, coinBrick],
        risingPlayer\<lparr>velocityY := 2\<rparr>, 0, [shieldBoost])
   \<and> fallPowerUp [\<lparr>x = 0, y = 400, width = 200, height = 40\<rparr>] shieldBoost =
       shieldBoost\<lparr>y := 375.4, powerUp.velocityY := 0.4\<rparr>
   \<and> overlaps (risingPlayer\<lparr>velocityY := 2\<rparr>)
         (fallPowerUp [\<lparr>x = 0, y = 400, width = 200, height = 40\<rparr>] shieldBoost)
   \<and> updatePowerUp [\<lparr>x = 0, y = 400, width = 200, height = 40\<rparr>] (risingPlayer\<lparr>velocityY := 2\<rparr>)
         shieldBoost (0, \<lparr>speed = False, jump = False, shield = False\<rparr>, []) =
       (shieldBoost\<lparr>y := 375.4, powerUp.velocityY := 0.4, powerUp.collected := True\<rparr>,
        50, \<lparr>speed = False, jump = False, shield = True\<rparr>, [Shield])"
proof -
  have h: "\<forall>c \<in> set [farBrick]. \<not> headHit risingPlayer c" "headHit risingPlayer shieldBrick"
    by (simp_all add: headHit_def overlaps_def risingPlayer_def farBrick_def shieldBrick_def)
  have fall: "fallPowerUp [\<lparr>x = 0, y = 400, width = 200, height = 40\<rparr>] shieldBoost =
       shieldBoost\<lparr>y := 375.4, powerUp.velocityY := 0.4\<rparr>"
    by (simp add: fallPowerUp_def powerUpLanding_def overlaps_def shieldBoost_def GRAVITY_def Let_def)
  have ov: "overlaps (risingPlayer\<lparr>velocityY := 2\<rparr>)
         (fallPowerUp [\<lparr>x = 0, y = 400, width = 200, height = 40\<rparr>] shieldBoost)"
    by (simp add: fall) (simp add: overlaps_def risingPlayer_def shieldBoost_def)
  show ?thesis
    using h fall ov
      brick_reward [OF h, of "[coinBrick]" 0 "[]" Shield
        "[\<lparr>x = 0, y = 400, width = 200, height = 40\<rparr>]" "risingPlayer\<lparr>velocityY := 2\<rparr>"
        shieldBoost 0 "\<lparr>speed = False, jump = False, shield = False\<rparr>" "[]"]
    by (simp add: prod_eq_iff shieldBrick_def shieldBoost_def setFlag_def)
qed

text \<open>
  The claim as it stands fails. In \<open>breakExample\<close> the frame moves the player to
  \<open>risingPlayer\<close>, which breaks \<open>shieldBrick\<close>. The power-up is pushed at y = 375, the lower
  edge of the brick, a rectangle that does not overlap the brick's; and the score, 0 before
  the frame of the break, is 50 after it, the power-up being collected in the same frame.
\<close>

theorem brick_reward_counterexample:
  "gameState breakExample = Playing
   \<and> score breakExample = 0
   \<and> movedPlayer breakExample = risingPlayer
   \<and> headHit risingPlayer shieldBrick
   \<and> snd (snd (snd (checkBricks [shieldBrick] (risingPlayer, 0, [])))) = [shieldBoost]
   \<and> y shieldBoost = y shieldBrick + height shieldBrick
   \<and> \<not> overlaps shieldBoost shieldBrick
   \<and> bricks (gameLoop breakExample) = [shieldBrick\<lparr>broken := True\<rparr>]
   \<and> powerUps (gameLoop breakExample) =
       [shieldBoost\<lparr>y := 375.4, powerUp.velocityY := 0.4, powerUp.collected := True\<rparr>]
   \<and> score (gameLoop breakExample) = 50"
  by (simp add: breakExample_def risingPlayer_def shieldBrick_def shieldBoost_def headHit_def
      initialGame_def tick_defs Let_def)

subsection \<open>C9: landing\<close>

text \<open>
  C9. In every state the component can reach: if, after the position update of a frame,
  the player overlaps a platform of the sweep, moves downwards and has its top edge above
  the platform's, then after the platform sweep the player stands on that platform
  (\<open>y = platform.y - player.height\<close>), its vertical velocity is 0 and it is grounded.
  Platforms are at least 100 units apart and the player is 30 wide, so no other platform
  of the sweep touches the player.
\<close>

theorem landing_on_platform:
  assumes "reachable g"
      and "pf \<in> set (platforms (localArrays g))"
      and "overlaps (movedPlayer g) pf"
      and "velocityY (movedPlayer g) > 0"
      and "y (movedPlayer g) < y pf"
  shows "y (checkPlatforms (platforms (localArrays g)) (movedPlayer g)) = y pf - height (movedPlayer g)
       \<and> velocityY (checkPlatforms (platforms (localArrays g)) (movedPlayer g)) = 0
       \<and> onGround (checkPlatforms (platforms (localArrays g)) (movedPlayer g))"
proof -
  have wf: "wellFormed g" "unitRange (randoms g)"
    using assms(1) reachable_wellFormed by blast+
  then have "sorted_wrt apart (platforms (localArrays g))"
    using separated_localArrays [of g] by (simp add: wellFormed_def separated_def)
  moreover have "width (movedPlayer g) \<le> 100"
    using wf by (simp add: wellFormed_def)
  ultimately show ?thesis
    using landing_separated [OF _ _ assms(2-5)] by simp
qed

theorem landing_on_platform_witness:
  "reachable fallingExample
   \<and> \<lparr>x = 0, y = 400, width = 200, height = 40\<rparr> \<in> set (platforms (localArrays fallingExample))
   \<and> overlaps (movedPlayer fallingExample) \<lparr>x = 0, y = 400, width = 200, height = 40\<rparr>
   \<and> velocityY (movedPlayer fallingExample) = 10.4
   \<and> y (movedPlayer fallingExample) = 372.8
   \<and> y (checkPlatforms (platforms (localArrays fallingExample)) (movedPlayer fallingExample)) = 370
   \<and> velocityY (checkPlatforms (platforms (localArrays fallingExample)) (movedPlayer fallingExample)) = 0
   \<and> onGround (checkPlatforms (platforms (localArrays fallingExample)) (movedPlayer fallingExample))"
proof -
  have r: "reachable fallingExample"
    unfolding fallingExample_def by (intro reachable_frames reachable.start) simp
  have facts:
    "\<lparr>x = 0, y = 400, width = 200, height = 40\<rparr> \<in> set (platforms (localArrays fallingExample))"
    "overlaps (movedPlayer fallingExample) \<lparr>x = 0, y = 400, width = 200, height = 40\<rparr>"
    "velocityY (movedPlayer fallingExample) = 10.4"
    "y (movedPlayer fallingExample) = 372.8"
    "height (movedPlayer fallingExample) = 30"
    by (simp_all add: fallingExample_eq initialGame_def localArrays_def spawnDue_def movedPlayer_def
        handleInput_def updatePhysics_def overlaps_def GRAVITY_def MOVE_SPEED_def JUMP_FORCE_def Let_def)
  show ?thesis
    using r facts landing_on_platform [OF r facts(1) facts(2)]
    by simp
qed

subsection \<open>C10: one brick per tick\<close>

text \<open>
  C10. In the brick loop of a tick at most one brick goes from intact to broken, and over
  a whole tick the number of broken bricks in the array grows by at most one: breaking a
  brick sets the player's vertical velocity to 2, and with it no brick is hit from below.
\<close>

theorem one_brick_per_tick:
  "newlyBroken bs (fst (checkBricks bs (p, sc, pushed))) \<le> 1
   \<and> length (filter broken (bricks (updateGame g))) \<le> length (filter broken (bricks g)) + 1
   \<and> (headHit p b \<longrightarrow>
        velocityY (fst (snd (brickCollision b (p, sc, pushed)))) = 2
        \<and> \<not> headHit (fst (snd (brickCollision b (p, sc, pushed)))) c)"
  using checkBricks_newlyBroken [of bs p sc pushed] updateGame_broken_count [of g]
    brickCollision_hit [of p b sc pushed]
  by (auto simp: headHit_def)

theorem one_brick_per_tick_witness:
  "headHit risingPlayer shieldBrick \<and> headHit risingPlayer coinBrick
   \<and> fst (checkBricks [shieldBrick, coinBrick] (risingPlayer, 0, [])) =
       [shieldBrick\<lparr>broken := True\<rparr>, coinBrick]
   \<and> newlyBroken [shieldBrick, coinBrick]
       (fst (checkBricks [shieldBrick, coinBrick] (risingPlayer, 0, []))) = 1
   \<and> \<not> headHit (fst (snd (brickCollision shieldBrick (risingPlayer, 0, [])))) coinBrick"
  using one_brick_per_tick
    [of "[shieldBrick, coinBrick]" risingPlayer 0 "[]" "initialGame (\<lambda>i. 0)" shieldBrick coinBrick]
  by (simp add: headHit_def overlaps_def risingPlayer_def shieldBrick_def coinBrick_def
      checkBricks_def brickCollision_def newlyBroken_def)

end
